theory Spec2Isabelle
  imports Main
begin

section \<open>The splicer of \<^verbatim>\<open>tools/update_oids.py\<close>\<close>

text \<open>
  The script reads a target file, runs a list of catalog queries through \<^verbatim>\<open>psql\<close>,
  indents the collected output lines and writes them between the two marker lines of the
  file. Byte strings are modelled as \<^typ>\<open>string\<close> (lists of 8-bit characters), the
  external processes (\<^verbatim>\<open>psql\<close>, \<^verbatim>\<open>black\<close>) are parameters, exceptions
  are values of the type \<open>error\<close>, and the file system is a map from paths to contents that
  every operation returns next to its outcome.
\<close>

subsection \<open>Byte strings and the library functions the script calls\<close>

type_synonym bytes = string

abbreviation LF :: char where "LF \<equiv> CHR 0x0A"
abbreviation CR :: char where "CR \<equiv> CHR 0x0D"

text \<open>
  \<^verbatim>\<open>bytes.splitlines()\<close>: lines end at \<^verbatim>\<open>\n\<close>, \<^verbatim>\<open>\r\<close> or \<^verbatim>\<open>\r\n\<close> (read as one
  break); the terminators are dropped and no empty line is produced after a final
  terminator. The first argument is the line read so far.
\<close>

fun splitlines_from :: "bytes \<Rightarrow> bytes \<Rightarrow> bytes list" where
  "splitlines_from cur [] = (if cur = [] then [] else [cur])"
| "splitlines_from cur [c] = (if c = LF \<or> c = CR then [cur] else [cur @ [c]])"
| "splitlines_from cur (c # d # s) =
     (if c = CR \<and> d = LF then cur # splitlines_from [] s
      else if c = LF \<or> c = CR then cur # splitlines_from [] (d # s)
      else splitlines_from (cur @ [c]) (d # s))"

definition splitlines :: "bytes \<Rightarrow> bytes list" where
  "splitlines s = splitlines_from [] s"

text \<open>\<^verbatim>\<open>sep.join(lines)\<close>.\<close>

fun join :: "bytes \<Rightarrow> bytes list \<Rightarrow> bytes" where
  "join sep [] = []"
| "join sep [x] = x"
| "join sep (x # y # ys) = x @ sep @ join sep (y # ys)"

subsection \<open>Regular expressions and \<^verbatim>\<open>re.match\<close>\<close>

text \<open>
  The fragment of Python's pattern syntax that the marker pattern uses: literal
  characters, a character class (\<^verbatim>\<open>\s\<close>), sequence, alternation, \<^verbatim>\<open>*\<close> and
  \<^verbatim>\<open>+\<close>. \<open>Null\<close> (no string) and \<open>Eps\<close> (the empty string) are needed for
  derivatives. The script only tests whether \<^verbatim>\<open>re.match\<close> returns a match object, so the
  capture group is plain grouping.
\<close>

datatype rexp =
    Null
  | Eps
  | Chr char
  | Cls "char list"
  | Seq rexp rexp
  | Alt rexp rexp
  | Star rexp

definition Plus :: "rexp \<Rightarrow> rexp" where
  "Plus r = Seq r (Star r)"

fun Str :: "bytes \<Rightarrow> rexp" where
  "Str [] = Eps"
| "Str (c # cs) = Seq (Chr c) (Str cs)"

text \<open>
  \<^verbatim>\<open>\s\<close> in a bytes pattern: the ASCII whitespace characters
  \<^verbatim>\<open>[ \t\n\r\f\v]\<close>.
\<close>

definition whitespace :: "char list" where
  "whitespace = [CHR '' '', CHR 0x09, CHR 0x0A, CHR 0x0D, CHR 0x0C, CHR 0x0B]"

text \<open>The pattern \<^verbatim>\<open>rb"\s*#\s*autogenerated:\s+(start|end)"\<close>.\<close>

definition marker_re :: rexp where
  "marker_re =
     Seq (Star (Cls whitespace))
    (Seq (Chr CHR ''#'')
    (Seq (Star (Cls whitespace))
    (Seq (Str ''autogenerated:'')
    (Seq (Plus (Cls whitespace))
         (Alt (Str ''start'') (Str ''end''))))))"

text \<open>The strings a pattern matches in full.\<close>

inductive matches :: "rexp \<Rightarrow> bytes \<Rightarrow> bool" where
  m_eps: "matches Eps []"
| m_chr: "matches (Chr c) [c]"
| m_cls: "c \<in> set cs \<Longrightarrow> matches (Cls cs) [c]"
| m_seq: "matches r u \<Longrightarrow> matches s v \<Longrightarrow> matches (Seq r s) (u @ v)"
| m_alt1: "matches r u \<Longrightarrow> matches (Alt r s) u"
| m_alt2: "matches s u \<Longrightarrow> matches (Alt r s) u"
| m_star0: "matches (Star r) []"
| m_star1: "matches r u \<Longrightarrow> matches (Star r) v \<Longrightarrow> matches (Star r) (u @ v)"

text \<open>
  \<^verbatim>\<open>re.match(pattern, line)\<close> as a truth value: some prefix of the line matches the
  pattern. It is computed with derivatives, character by character.
\<close>

fun nullable :: "rexp \<Rightarrow> bool" where
  "nullable Null = False"
| "nullable Eps = True"
| "nullable (Chr c) = False"
| "nullable (Cls cs) = False"
| "nullable (Seq r s) = (nullable r \<and> nullable s)"
| "nullable (Alt r s) = (nullable r \<or> nullable s)"
| "nullable (Star r) = True"

fun deriv :: "char \<Rightarrow> rexp \<Rightarrow> rexp" where
  "deriv c Null = Null"
| "deriv c Eps = Null"
| "deriv c (Chr d) = (if c = d then Eps else Null)"
| "deriv c (Cls cs) = (if c \<in> set cs then Eps else Null)"
| "deriv c (Seq r s) =
     (if nullable r then Alt (Seq (deriv c r) s) (deriv c s) else Seq (deriv c r) s)"
| "deriv c (Alt r s) = Alt (deriv c r) (deriv c s)"
| "deriv c (Star r) = Seq (deriv c r) (Star r)"

fun re_match :: "rexp \<Rightarrow> bytes \<Rightarrow> bool" where
  "re_match r [] = nullable r"
| "re_match r (c # cs) = (nullable r \<or> re_match (deriv c r) cs)"

text \<open>The condition of the list comprehension in \<^verbatim>\<open>update_file\<close>.\<close>

definition is_marker :: "bytes \<Rightarrow> bool" where
  "is_marker line = re_match marker_re line"

subsection \<open>\<^verbatim>\<open>update_file\<close> and the two pipelines\<close>

text \<open>
  The exceptions the script can end with: the target file is missing, \<^verbatim>\<open>psql\<close> or
  \<^verbatim>\<open>black\<close> exits with a non-zero status or cannot be started, the unpacking of the
  marker indices fails.
\<close>

datatype error = FileNotFoundError | CalledProcessError | OSError | ValueError

text \<open>A path is the list of its components; the file system maps paths to file contents.\<close>

type_synonym path = "string list"
type_synonym filesystem = "path \<Rightarrow> bytes option"
type_synonym 'a result = "(error + 'a) \<times> filesystem"

text \<open>
  The loop over the queries: \<open>psql query\<close> is the standard output of
  \<^verbatim>\<open>sp.run(["psql", "-AXqt", "-c", query], stdout=sp.PIPE, check=True)\<close> or the
  exception it raises; the first exception ends the loop.
\<close>

fun run_queries :: "('q \<Rightarrow> error + bytes) \<Rightarrow> 'q list \<Rightarrow> bytes list \<Rightarrow> error + bytes list" where
  "run_queries psql [] new = Inr new"
| "run_queries psql (query # queries) new =
     (case psql query of
        Inl e \<Rightarrow> Inl e
      | Inr out \<Rightarrow> run_queries psql queries (new @ splitlines out))"

text \<open>\<^verbatim>\<open>[b" " * 4 + line if line else b"" for line in new]\<close>.\<close>

definition indent :: "bytes list \<Rightarrow> bytes list" where
  "indent new = map (\<lambda>line. if line \<noteq> [] then replicate 4 CHR '' '' @ line else []) new"

text \<open>\<^verbatim>\<open>[i for i, line in enumerate(lines) if re.match(..., line)]\<close>.\<close>

definition marker_indices :: "bytes list \<Rightarrow> nat list" where
  "marker_indices lines = map fst (filter (\<lambda>(i, line). is_marker line) (enumerate 0 lines))"

text \<open>\<^verbatim>\<open>istart, iend = [...]\<close>: a list of any other length raises \<^verbatim>\<open>ValueError\<close>.\<close>

fun unpack2 :: "'a list \<Rightarrow> error + ('a \<times> 'a)" where
  "unpack2 [a, b] = Inr (a, b)"
| "unpack2 _ = Inl ValueError"

text \<open>
  \<^verbatim>\<open>xs[a:b] = new\<close> for non-negative bounds: both bounds are clipped to the length and
  an upper bound below the lower one is raised to it.
\<close>

definition slice_assign :: "nat \<Rightarrow> nat \<Rightarrow> 'a list \<Rightarrow> 'a list \<Rightarrow> 'a list" where
  "slice_assign a b new xs =
     (let lo = min a (length xs); hi = max lo (min b (length xs))
      in take lo xs @ new @ drop hi xs)"

definition update_file ::
  "('q \<Rightarrow> error + bytes) \<Rightarrow> path \<Rightarrow> 'q list \<Rightarrow> filesystem \<Rightarrow> unit result" where
  "update_file psql fn queries fs =
     (case fs fn of
        None \<Rightarrow> (Inl FileNotFoundError, fs)
      | Some content \<Rightarrow>
          (let lines = splitlines content in
           case run_queries psql queries [] of
             Inl e \<Rightarrow> (Inl e, fs)
           | Inr new \<Rightarrow>
               (let new = indent new in
                case unpack2 (marker_indices lines) of
                  Inl e \<Rightarrow> (Inl e, fs)
                | Inr (istart, iend) \<Rightarrow>
                    (let lines = slice_assign (istart + 1) iend new lines
                     in (Inr (), fs(fn \<mapsto> join [LF] lines @ [LF]))))))"

text \<open>
  The five SQL texts of the script are only ever handed to \<^verbatim>\<open>psql\<close>; they are named,
  not spelled out.
\<close>

datatype query = version_sql | py_types_sql | py_ranges_sql | py_multiranges_sql | cython_oids_sql

text \<open>
  \<open>black fn\<close> stands for \<^verbatim>\<open>sp.check_call(["black", "-q", fn])\<close>, \<open>ROOT\<close> for
  \<^verbatim>\<open>Path(__file__).parent.parent\<close>.
\<close>

definition update_python_oids ::
  "(query \<Rightarrow> error + bytes) \<Rightarrow> (path \<Rightarrow> filesystem \<Rightarrow> unit result) \<Rightarrow> path \<Rightarrow>
   filesystem \<Rightarrow> unit result" where
  "update_python_oids psql black ROOT fs =
     (let queries = [version_sql, py_types_sql, py_ranges_sql, py_multiranges_sql];
          fn = ROOT @ [''psycopg'', ''psycopg'', ''postgres.py'']
      in case update_file psql fn queries fs of
           (Inl e, fs') \<Rightarrow> (Inl e, fs')
         | (Inr _, fs') \<Rightarrow> black fn fs')"

definition update_cython_oids ::
  "(query \<Rightarrow> error + bytes) \<Rightarrow> path \<Rightarrow> filesystem \<Rightarrow> unit result" where
  "update_cython_oids psql ROOT fs =
     (let queries = [version_sql, cython_oids_sql];
          fn = ROOT @ [''psycopg_c'', ''psycopg_c'', ''_psycopg'', ''oids.pxd'']
      in update_file psql fn queries fs)"

definition main ::
  "(query \<Rightarrow> error + bytes) \<Rightarrow> (path \<Rightarrow> filesystem \<Rightarrow> unit result) \<Rightarrow> path \<Rightarrow>
   filesystem \<Rightarrow> unit result" where
  "main psql black ROOT fs =
     (case update_python_oids psql black ROOT fs of
        (Inl e, fs') \<Rightarrow> (Inl e, fs')
      | (Inr _, fs') \<Rightarrow> update_cython_oids psql ROOT fs')"

subsection \<open>Sample inputs\<close>

text \<open>
  A stand-in for \<^verbatim>\<open>psql\<close> in the examples: the query text comes back as one output
  line, and the empty query fails. \<open>single_file\<close> is a file system holding one file.
\<close>

definition echo_psql :: "bytes \<Rightarrow> error + bytes" where
  "echo_psql query = (if query = [] then Inl CalledProcessError else Inr (query @ [LF]))"

definition single_file :: "path \<Rightarrow> bytes \<Rightarrow> filesystem" where
  "single_file fn content = (\<lambda>p. if p = fn then Some content else None)"

definition target :: path where
  "target = [''psycopg'', ''postgres.py'']"

text \<open>The target file of the scenario in the specification, and one with a single marker.\<close>

definition sample_content :: bytes where
  "sample_content =
     ''x = 1\<newline># autogenerated: start\<newline>OLD_LINE = 0\<newline># autogenerated: end\<newline>y = 2\<newline>''"

definition start_only_content :: bytes where
  "start_only_content = ''x = 1\<newline># autogenerated: start\<newline>OLD_LINE = 0\<newline>y = 2\<newline>''"

text \<open>
  A run of both pipelines in which the query for the OID constants fails: the other
  queries print one line each, and \<^verbatim>\<open>black\<close> leaves the file as it is.
\<close>

definition failing_cython_psql :: "query \<Rightarrow> error + bytes" where
  "failing_cython_psql q =
     (if q = cython_oids_sql then Inl CalledProcessError
      else if q = version_sql then Inr ''# Generated from PostgreSQL 14.0\<newline>''
      else Inr ''TypeInfo(1),\<newline>'')"

definition black_noop :: "path \<Rightarrow> filesystem \<Rightarrow> unit result" where
  "black_noop fn fs = (Inr (), fs)"

definition two_files :: filesystem where
  "two_files =
     (\<lambda>p. if p = [''repo'', ''psycopg'', ''psycopg'', ''postgres.py''] then Some sample_content
          else if p = [''repo'', ''psycopg_c'', ''psycopg_c'', ''_psycopg'', ''oids.pxd'']
          then Some sample_content
          else None)"

text \<open>
  A target file whose end marker comes first, and one with CRLF and lone CR line
  terminators and no newline at its end.
\<close>

definition reversed_content :: bytes where
  "reversed_content =
     ''x = 1\<newline># autogenerated: end\<newline>OLD_LINE = 0\<newline># autogenerated: start\<newline>y = 2\<newline>''"

definition crlf_content :: bytes where
  "crlf_content =
     ''x = 1'' @ [CR, LF] @ ''# autogenerated: start'' @ [CR] @ ''OLD_LINE = 0'' @ [CR, LF] @
     ''# autogenerated: end'' @ [CR, LF] @ ''y = 2''"

section \<open>Properties\<close>

subsection \<open>The matcher decides prefix matching\<close>

inductive_cases m_NullE: "matches Null w"
inductive_cases m_EpsE: "matches Eps w"
inductive_cases m_ChrE: "matches (Chr c) w"
inductive_cases m_ClsE: "matches (Cls cs) w"
inductive_cases m_SeqE: "matches (Seq r s) w"
inductive_cases m_AltE: "matches (Alt r s) w"

lemma matches_Null_iff: "matches Null w \<longleftrightarrow> False"
  by (auto elim: m_NullE)

lemma matches_Eps_iff: "matches Eps w \<longleftrightarrow> w = []"
  by (auto elim: m_EpsE intro: m_eps)

lemma matches_Chr_iff: "matches (Chr c) w \<longleftrightarrow> w = [c]"
  by (auto elim: m_ChrE intro: m_chr)

lemma matches_Cls_iff: "matches (Cls cs) w \<longleftrightarrow> (\<exists>c. w = [c] \<and> c \<in> set cs)"
  by (auto elim: m_ClsE intro: m_cls)

lemma matches_Seq_iff:
  "matches (Seq r s) w \<longleftrightarrow> (\<exists>u v. w = u @ v \<and> matches r u \<and> matches s v)"
proof
  assume "matches (Seq r s) w"
  then show "\<exists>u v. w = u @ v \<and> matches r u \<and> matches s v"
    by (rule m_SeqE) blast
next
  assume "\<exists>u v. w = u @ v \<and> matches r u \<and> matches s v"
  then show "matches (Seq r s) w" by (blast intro: m_seq)
qed

lemma matches_Alt_iff: "matches (Alt r s) w \<longleftrightarrow> matches r w \<or> matches s w"
  by (auto elim: m_AltE intro: m_alt1 m_alt2)

lemmas matches_simps =
  matches_Null_iff matches_Eps_iff matches_Chr_iff matches_Cls_iff matches_Seq_iff
  matches_Alt_iff

lemma nullable_iff: "nullable r \<longleftrightarrow> matches r []"
  by (induction r) (auto simp: matches_simps intro: m_star0)

lemma star_cons:
  "matches r' w \<Longrightarrow> r' = Star r \<Longrightarrow> w = c # x \<Longrightarrow>
   \<exists>u v. x = u @ v \<and> matches r (c # u) \<and> matches (Star r) v"
proof (induction arbitrary: x rule: matches.induct)
  case (m_star1 r0 u v)
  show ?case
  proof (cases u)
    case Nil
    with m_star1 show ?thesis by simp
  next
    case (Cons a u')
    with m_star1 show ?thesis by auto
  qed
qed simp_all

lemma matches_Star_Cons_iff:
  "matches (Star r) (c # x) \<longleftrightarrow>
   (\<exists>u v. x = u @ v \<and> matches r (c # u) \<and> matches (Star r) v)"
proof
  assume "matches (Star r) (c # x)"
  from star_cons[OF this refl refl]
  show "\<exists>u v. x = u @ v \<and> matches r (c # u) \<and> matches (Star r) v" .
next
  assume "\<exists>u v. x = u @ v \<and> matches r (c # u) \<and> matches (Star r) v"
  then obtain u v where "x = u @ v" "matches r (c # u)" "matches (Star r) v" by blast
  then show "matches (Star r) (c # x)" using m_star1[of r "c # u" v] by simp
qed

lemma deriv_iff: "matches (deriv c r) w \<longleftrightarrow> matches r (c # w)"
proof (induction r arbitrary: w)
  case (Seq r s)
  have split: "(\<exists>u v. c # w = u @ v \<and> matches r u \<and> matches s v) \<longleftrightarrow>
        (matches r [] \<and> matches s (c # w)) \<or>
        (\<exists>u' v. w = u' @ v \<and> matches r (c # u') \<and> matches s v)"
    by (auto simp: Cons_eq_append_conv)
  show ?case
    by (simp add: matches_simps Seq nullable_iff split) blast
next
  case (Star r)
  show ?case
    by (simp add: matches_Seq_iff Star matches_Star_Cons_iff)
qed (auto simp: matches_simps)

lemma re_match_iff: "re_match r s \<longleftrightarrow> (\<exists>p q. s = p @ q \<and> matches r p)"
proof (induction s arbitrary: r)
  case Nil
  show ?case by (simp add: nullable_iff)
next
  case (Cons c cs)
  show ?case
    by (auto simp: Cons nullable_iff deriv_iff Cons_eq_append_conv)
qed

lemma matches_Str_iff: "matches (Str s) w \<longleftrightarrow> w = s"
  by (induction s arbitrary: w) (auto simp: matches_simps)

lemma star_cls_sound:
  "matches r w \<Longrightarrow> r = Star (Cls cs) \<Longrightarrow> set w \<subseteq> set cs"
  by (induction rule: matches.induct) (auto simp: matches_Cls_iff)

lemma star_cls_complete: "set w \<subseteq> set cs \<Longrightarrow> matches (Star (Cls cs)) w"
proof (induction w)
  case Nil
  show ?case by (rule m_star0)
next
  case (Cons c w)
  then have "matches (Cls cs) [c]" "matches (Star (Cls cs)) w"
    by (auto intro: matches.intros)
  from m_star1[OF this] show ?case by simp
qed

lemma matches_Star_Cls_iff: "matches (Star (Cls cs)) w \<longleftrightarrow> set w \<subseteq> set cs"
  using star_cls_sound star_cls_complete by blast

lemma matches_Plus_Cls_iff:
  "matches (Plus (Cls cs)) w \<longleftrightarrow> w \<noteq> [] \<and> set w \<subseteq> set cs"
proof (cases w)
  case Nil
  then show ?thesis
    by (simp add: Plus_def matches_Seq_iff matches_Cls_iff)
next
  case (Cons c w')
  have "(\<exists>u v. c # w' = u @ v \<and> (\<exists>d. u = [d] \<and> d \<in> set cs) \<and> set v \<subseteq> set cs)
        \<longleftrightarrow> c \<in> set cs \<and> set w' \<subseteq> set cs"
  proof
    assume "\<exists>u v. c # w' = u @ v \<and> (\<exists>d. u = [d] \<and> d \<in> set cs) \<and> set v \<subseteq> set cs"
    then show "c \<in> set cs \<and> set w' \<subseteq> set cs" by auto
  next
    assume "c \<in> set cs \<and> set w' \<subseteq> set cs"
    then show "\<exists>u v. c # w' = u @ v \<and> (\<exists>d. u = [d] \<and> d \<in> set cs) \<and> set v \<subseteq> set cs"
      by (intro exI[of _ "[c]"] exI[of _ w']) simp
  qed
  with Cons show ?thesis
    by (simp add: Plus_def matches_Seq_iff matches_Cls_iff matches_Star_Cls_iff)
qed

lemma matches_marker_shape:
  "matches (Seq (Star (Cls W)) (Seq (Chr h) (Seq (Star (Cls W)) (Seq (Str lit)
      (Seq (Plus (Cls W)) (Alt (Str a) (Str b))))))) p \<longleftrightarrow>
     (\<exists>ws1 ws2 ws3 kw.
        p = ws1 @ [h] @ ws2 @ lit @ ws3 @ kw \<and>
        set ws1 \<subseteq> set W \<and> set ws2 \<subseteq> set W \<and>
        set ws3 \<subseteq> set W \<and> ws3 \<noteq> [] \<and> (kw = a \<or> kw = b))"
  (is "?L \<longleftrightarrow> ?R")
proof
  assume ?L
  then obtain ws1 t1 where 1: "p = ws1 @ t1" "set ws1 \<subseteq> set W"
    and m1: "matches (Seq (Chr h) (Seq (Star (Cls W)) (Seq (Str lit)
               (Seq (Plus (Cls W)) (Alt (Str a) (Str b)))))) t1"
    unfolding matches_Seq_iff[of "Star (Cls W)"] matches_Star_Cls_iff by blast
  from m1 obtain t2 where 2: "t1 = [h] @ t2"
    and m2: "matches (Seq (Star (Cls W)) (Seq (Str lit)
               (Seq (Plus (Cls W)) (Alt (Str a) (Str b))))) t2"
    unfolding matches_Seq_iff[of "Chr h"] matches_Chr_iff by blast
  from m2 obtain ws2 t3 where 3: "t2 = ws2 @ t3" "set ws2 \<subseteq> set W"
    and m3: "matches (Seq (Str lit) (Seq (Plus (Cls W)) (Alt (Str a) (Str b)))) t3"
    unfolding matches_Seq_iff[of "Star (Cls W)"] matches_Star_Cls_iff by blast
  from m3 obtain t4 where 4: "t3 = lit @ t4"
    and m4: "matches (Seq (Plus (Cls W)) (Alt (Str a) (Str b))) t4"
    unfolding matches_Seq_iff[of "Str lit"] matches_Str_iff by blast
  from m4 obtain ws3 kw where 5: "t4 = ws3 @ kw" "ws3 \<noteq> []" "set ws3 \<subseteq> set W"
    and m5: "matches (Alt (Str a) (Str b)) kw"
    unfolding matches_Seq_iff[of "Plus (Cls W)"] matches_Plus_Cls_iff by blast
  from m5 have 6: "kw = a \<or> kw = b"
    by (simp add: matches_Alt_iff matches_Str_iff)
  from 1 2 3 4 5 6 show ?R by blast
next
  assume ?R
  then obtain ws1 ws2 ws3 kw where p: "p = ws1 @ [h] @ ws2 @ lit @ ws3 @ kw"
    and w: "set ws1 \<subseteq> set W" "set ws2 \<subseteq> set W"
      "set ws3 \<subseteq> set W" "ws3 \<noteq> []" and k: "kw = a \<or> kw = b"
    by blast
  from k have "matches (Alt (Str a) (Str b)) kw"
    by (simp add: matches_Alt_iff matches_Str_iff)
  moreover from w have "matches (Plus (Cls W)) ws3"
    by (simp add: matches_Plus_Cls_iff)
  ultimately have "matches (Seq (Plus (Cls W)) (Alt (Str a) (Str b))) (ws3 @ kw)"
    by (rule m_seq[rotated])
  moreover have "matches (Str lit) lit"
    by (simp only: matches_Str_iff)
  ultimately have "matches (Seq (Str lit) (Seq (Plus (Cls W)) (Alt (Str a) (Str b))))
      (lit @ ws3 @ kw)"
    by (rule m_seq[rotated])
  moreover from w have "matches (Star (Cls W)) ws2"
    by (simp add: matches_Star_Cls_iff)
  ultimately have "matches (Seq (Star (Cls W)) (Seq (Str lit)
      (Seq (Plus (Cls W)) (Alt (Str a) (Str b))))) (ws2 @ lit @ ws3 @ kw)"
    by (rule m_seq[rotated])
  moreover have "matches (Chr h) [h]" by (rule m_chr)
  ultimately have "matches (Seq (Chr h) (Seq (Star (Cls W)) (Seq (Str lit)
      (Seq (Plus (Cls W)) (Alt (Str a) (Str b)))))) ([h] @ ws2 @ lit @ ws3 @ kw)"
    by (rule m_seq[rotated])
  moreover from w have "matches (Star (Cls W)) ws1"
    by (simp add: matches_Star_Cls_iff)
  ultimately show ?L unfolding p
    by (rule m_seq[rotated])
qed

lemma matches_marker_re:
  "matches marker_re p \<longleftrightarrow>
     (\<exists>ws1 ws2 ws3 kw.
        p = ws1 @ ''#'' @ ws2 @ ''autogenerated:'' @ ws3 @ kw \<and>
        set ws1 \<subseteq> set whitespace \<and> set ws2 \<subseteq> set whitespace \<and>
        set ws3 \<subseteq> set whitespace \<and> ws3 \<noteq> [] \<and> (kw = ''start'' \<or> kw = ''end''))"
  unfolding marker_re_def using matches_marker_shape[of whitespace "CHR ''#''" "''autogenerated:''" "''start''" "''end''" p] by simp

lemma is_marker_iff:
  "is_marker line \<longleftrightarrow>
     (\<exists>ws1 ws2 ws3 kw rest.
        line = ws1 @ ''#'' @ ws2 @ ''autogenerated:'' @ ws3 @ kw @ rest \<and>
        set ws1 \<subseteq> set whitespace \<and> set ws2 \<subseteq> set whitespace \<and>
        set ws3 \<subseteq> set whitespace \<and> ws3 \<noteq> [] \<and> (kw = ''start'' \<or> kw = ''end''))"
  (is "?L \<longleftrightarrow> ?R")
proof
  assume ?L
  then obtain p q where "line = p @ q" "matches marker_re p"
    unfolding is_marker_def re_match_iff by blast
  then show ?R unfolding matches_marker_re
    by (elim exE conjE) (simp only: append_assoc, blast)
next
  assume ?R
  then obtain ws1 ws2 ws3 kw rest where
    l0: "line = ws1 @ ''#'' @ ws2 @ ''autogenerated:'' @ ws3 @ kw @ rest" and
    w: "set ws1 \<subseteq> set whitespace" "set ws2 \<subseteq> set whitespace"
       "set ws3 \<subseteq> set whitespace" "ws3 \<noteq> []" "kw = ''start'' \<or> kw = ''end''"
    by blast
  from l0 have l: "line = (ws1 @ ''#'' @ ws2 @ ''autogenerated:'' @ ws3 @ kw) @ rest"
    by simp
  from w have "matches marker_re (ws1 @ ''#'' @ ws2 @ ''autogenerated:'' @ ws3 @ kw)"
    unfolding matches_marker_re by blast
  with l show ?L unfolding is_marker_def re_match_iff by blast
qed

subsection \<open>Splitting into lines and joining them again\<close>

lemma splitlines_from_LF: "splitlines_from cur (LF # s) = cur # splitlines_from [] s"
  by (cases s) simp_all

lemma splitlines_from_CR_LF: "splitlines_from cur (CR # LF # s) = cur # splitlines_from [] s"
  by simp

lemma splitlines_from_CR:
  "s = [] \<or> hd s \<noteq> LF \<Longrightarrow> splitlines_from cur (CR # s) = cur # splitlines_from [] s"
  by (cases s) auto

lemma splitlines_from_other:
  "c \<noteq> LF \<Longrightarrow> c \<noteq> CR \<Longrightarrow> splitlines_from cur (c # s) = splitlines_from (cur @ [c]) s"
  by (cases s) simp_all

lemma splitlines_from_no_break:
  "LF \<notin> set cur \<Longrightarrow> CR \<notin> set cur \<Longrightarrow> l \<in> set (splitlines_from cur s) \<Longrightarrow>
   LF \<notin> set l \<and> CR \<notin> set l"
proof (induction cur s rule: splitlines_from.induct)
  case (1 cur)
  then show ?case by (simp split: if_splits)
next
  case (2 cur c)
  then show ?case by (auto split: if_splits)
next
  case (3 cur c d s)
  show ?case
  proof (cases "c = CR \<and> d = LF")
    case True
    with 3(1)[OF True] 3(4,5,6) show ?thesis by auto
  next
    case False
    note nf = this
    show ?thesis
    proof (cases "c = LF \<or> c = CR")
      case True
      with 3(2)[OF nf True] nf 3(4,5,6) show ?thesis by auto
    next
      case False
      with 3(3)[OF nf False] nf 3(4,5,6) show ?thesis by auto
    qed
  qed
qed

lemma splitlines_no_break: "l \<in> set (splitlines s) \<Longrightarrow> LF \<notin> set l \<and> CR \<notin> set l"
  unfolding splitlines_def using splitlines_from_no_break[of "[]" l s] by simp

lemma splitlines_from_line:
  "LF \<notin> set l \<Longrightarrow> CR \<notin> set l \<Longrightarrow>
   splitlines_from cur (l @ LF # rest) = (cur @ l) # splitlines_from [] rest"
proof (induction l arbitrary: cur)
  case Nil
  show ?case by (simp add: splitlines_from_LF)
next
  case (Cons c l)
  then have "c \<noteq> LF" "c \<noteq> CR" by auto
  then have "splitlines_from cur ((c # l) @ LF # rest) = splitlines_from (cur @ [c]) (l @ LF # rest)"
    by (simp add: splitlines_from_other)
  with Cons show ?case by simp
qed

lemma splitlines_unlines:
  "\<forall>l\<in>set ls. LF \<notin> set l \<and> CR \<notin> set l \<Longrightarrow>
   splitlines (concat (map (\<lambda>l. l @ [LF]) ls)) = ls"
proof (induction ls)
  case Nil
  show ?case by (simp add: splitlines_def)
next
  case (Cons l ls)
  then have "splitlines_from [] (l @ LF # concat (map (\<lambda>l. l @ [LF]) ls)) =
      l # splitlines_from [] (concat (map (\<lambda>l. l @ [LF]) ls))"
    using splitlines_from_line[of l "[]"] by simp
  with Cons show ?case by (simp add: splitlines_def)
qed

lemma join_terminated:
  "ls \<noteq> [] \<Longrightarrow> join sep ls @ sep = concat (map (\<lambda>l. l @ sep) ls)"
  by (induction sep ls rule: join.induct) simp_all

subsection \<open>The marker indices\<close>

lemma indices_length:
  "length (map fst (filter (\<lambda>(i, l). P l) (enumerate n xs))) = length (filter P xs)"
  by (induction xs arbitrary: n) simp_all

lemma indices_none:
  "\<forall>l\<in>set xs. \<not> P l \<Longrightarrow> map fst (filter (\<lambda>(i, l). P l) (enumerate n xs)) = []"
  by (induction xs arbitrary: n) simp_all

lemma indices_append:
  "map fst (filter (\<lambda>(i, l). P l) (enumerate n (xs @ ys))) =
   map fst (filter (\<lambda>(i, l). P l) (enumerate n xs)) @
   map fst (filter (\<lambda>(i, l). P l) (enumerate (n + length xs) ys))"
  by (simp add: enumerate_append_eq)

lemma indices_Cons:
  "map fst (filter (\<lambda>(i, l). P l) (enumerate n (x # xs))) =
   (if P x then [n] else []) @ map fst (filter (\<lambda>(i, l). P l) (enumerate (Suc n) xs))"
  by simp

lemma indices_two:
  assumes "P s" "P e" "\<forall>l\<in>set pre. \<not> P l" "\<forall>l\<in>set mid. \<not> P l" "\<forall>l\<in>set post. \<not> P l"
  shows "map fst (filter (\<lambda>(i, l). P l) (enumerate n (pre @ s # mid @ e # post))) =
         [n + length pre, Suc (n + length pre + length mid)]"
proof -
  have "map fst (filter (\<lambda>(i, l). P l) (enumerate n (pre @ s # mid @ e # post))) =
        map fst (filter (\<lambda>(i, l). P l) (enumerate n pre)) @ [n + length pre] @
        map fst (filter (\<lambda>(i, l). P l) (enumerate (Suc (n + length pre)) (mid @ e # post)))"
    using assms(1) by (simp only: indices_append indices_Cons if_True)
  also have "map fst (filter (\<lambda>(i, l). P l) (enumerate (Suc (n + length pre)) (mid @ e # post))) =
        map fst (filter (\<lambda>(i, l). P l) (enumerate (Suc (n + length pre)) mid)) @
        [Suc (n + length pre) + length mid] @
        map fst (filter (\<lambda>(i, l). P l) (enumerate (Suc (Suc (n + length pre) + length mid)) post))"
    using assms(2) by (simp only: indices_append indices_Cons if_True)
  finally show ?thesis
    using assms(3-5) by (simp only: indices_none) simp
qed

lemma marker_indices_length: "length (marker_indices lines) = length (filter is_marker lines)"
  unfolding marker_indices_def by (rule indices_length)

lemma marker_indices_two:
  assumes "is_marker s" "is_marker e"
    "\<forall>l\<in>set pre. \<not> is_marker l" "\<forall>l\<in>set mid. \<not> is_marker l" "\<forall>l\<in>set post. \<not> is_marker l"
  shows "marker_indices (pre @ s # mid @ e # post) = [length pre, Suc (length pre + length mid)]"
  unfolding marker_indices_def using indices_two[OF assms, of 0] by simp

lemma filter_two_decomp:
  assumes "length (filter P xs) = 2"
  shows "\<exists>pre s mid e post. xs = pre @ s # mid @ e # post \<and> P s \<and> P e \<and>
           (\<forall>l\<in>set pre. \<not> P l) \<and> (\<forall>l\<in>set mid. \<not> P l) \<and> (\<forall>l\<in>set post. \<not> P l)"
proof -
  from assms have "length (filter P xs) = Suc (Suc 0)" by simp
  then obtain s e where f: "filter P xs = [s, e]"
    by (auto simp: length_Suc_conv)
  then obtain pre r1 where 1: "xs = pre @ s # r1" "\<forall>l\<in>set pre. \<not> P l" "P s" "[e] = filter P r1"
    unfolding filter_eq_Cons_iff by blast
  from 1(4) have "filter P r1 = [e]" by simp
  then obtain mid post where 2: "r1 = mid @ e # post" "\<forall>l\<in>set mid. \<not> P l" "P e"
      "[] = filter P post"
    unfolding filter_eq_Cons_iff by blast
  from 2(4) have "\<forall>l\<in>set post. \<not> P l" by (metis filter_empty_conv)
  with 1(1-3) 2(1-3) show ?thesis by blast
qed

lemma unpack2_Inr_iff: "unpack2 xs = Inr (a, b) \<longleftrightarrow> xs = [a, b]"
  by (cases xs rule: unpack2.cases) auto

lemma unpack2_Inl: "length xs \<noteq> 2 \<Longrightarrow> unpack2 xs = Inl ValueError"
  by (cases xs rule: unpack2.cases) auto

lemma slice_assign_between:
  "slice_assign (Suc (length pre)) (Suc (length pre + length mid)) new (pre @ s # mid @ e # post) =
   pre @ s # new @ e # post"
  by (simp add: slice_assign_def Let_def min_def max_def)

subsection \<open>The query loop and the indentation\<close>

lemma run_queries_ok:
  "\<forall>q\<in>set queries. psql q = Inr (out q) \<Longrightarrow>
   run_queries psql queries new = Inr (new @ concat (map (\<lambda>q. splitlines (out q)) queries))"
  by (induction queries arbitrary: new) simp_all

lemma run_queries_fail:
  "q \<in> set queries \<Longrightarrow> psql q = Inl e \<Longrightarrow> \<exists>e'. run_queries psql queries new = Inl e'"
  by (induction queries arbitrary: new) (auto split: sum.splits)

lemma run_queries_first_failure:
  "\<forall>q'\<in>set ok. \<not> isl (psql q') \<Longrightarrow> psql q = Inl e \<Longrightarrow>
   run_queries psql (ok @ q # rest) new = Inl e"
proof (induction ok arbitrary: new)
  case Nil
  then show ?case by simp
next
  case (Cons a ok)
  then obtain out where "psql a = Inr out" by (cases "psql a") auto
  with Cons show ?case by simp
qed

lemma run_queries_no_break:
  "run_queries psql queries new = Inr outs \<Longrightarrow>
   \<forall>l\<in>set new. LF \<notin> set l \<and> CR \<notin> set l \<Longrightarrow> \<forall>l\<in>set outs. LF \<notin> set l \<and> CR \<notin> set l"
proof (induction queries arbitrary: new)
  case Nil
  then show ?case by simp
next
  case (Cons q queries)
  from Cons.prems(1) obtain out where o: "psql q = Inr out"
    and r: "run_queries psql queries (new @ splitlines out) = Inr outs"
    by (auto split: sum.splits)
  have "\<forall>l\<in>set (new @ splitlines out). LF \<notin> set l \<and> CR \<notin> set l"
    using Cons.prems(2) splitlines_no_break[of _ out] by auto
  from Cons.IH[OF r this] show ?case .
qed

lemma indent_no_break:
  "\<forall>l\<in>set new. LF \<notin> set l \<and> CR \<notin> set l \<Longrightarrow> \<forall>l\<in>set (indent new). LF \<notin> set l \<and> CR \<notin> set l"
  by (auto simp: indent_def)

subsection \<open>The four ways \<^verbatim>\<open>update_file\<close> can end\<close>

lemma update_file_missing:
  "fs fn = None \<Longrightarrow> update_file psql fn queries fs = (Inl FileNotFoundError, fs)"
  by (simp add: update_file_def)

lemma update_file_query_error:
  "fs fn = Some content \<Longrightarrow> run_queries psql queries [] = Inl e \<Longrightarrow>
   update_file psql fn queries fs = (Inl e, fs)"
  by (simp add: update_file_def)

lemma update_file_bad_markers:
  "fs fn = Some content \<Longrightarrow> run_queries psql queries [] = Inr outs \<Longrightarrow>
   length (filter is_marker (splitlines content)) \<noteq> 2 \<Longrightarrow>
   update_file psql fn queries fs = (Inl ValueError, fs)"
  by (simp add: update_file_def unpack2_Inl marker_indices_length)

lemma update_file_splice:
  assumes "fs fn = Some content" "run_queries psql queries [] = Inr outs"
    "splitlines content = pre @ s # mid @ e # post" "is_marker s" "is_marker e"
    "\<forall>l\<in>set pre. \<not> is_marker l" "\<forall>l\<in>set mid. \<not> is_marker l" "\<forall>l\<in>set post. \<not> is_marker l"
  shows "update_file psql fn queries fs =
         (Inr (), fs(fn \<mapsto> concat (map (\<lambda>l. l @ [LF]) (pre @ s # indent outs @ e # post))))"
proof -
  have idx: "marker_indices (splitlines content) = [length pre, Suc (length pre + length mid)]"
    using assms(3) marker_indices_two[OF assms(4-8)] by simp
  have "join [LF] (pre @ s # indent outs @ e # post) @ [LF] =
        concat (map (\<lambda>l. l @ [LF]) (pre @ s # indent outs @ e # post))"
    by (rule join_terminated) simp
  then show ?thesis
    using assms(1-3) idx slice_assign_between[of pre mid "indent outs" s e post]
    by (simp add: update_file_def)
qed

lemma update_file_cases:
  obtains
    (missing) "fs fn = None" "update_file psql fn queries fs = (Inl FileNotFoundError, fs)"
  | (query_error) content e where "fs fn = Some content" "run_queries psql queries [] = Inl e"
      "update_file psql fn queries fs = (Inl e, fs)"
  | (bad_markers) content outs where "fs fn = Some content"
      "run_queries psql queries [] = Inr outs"
      "length (filter is_marker (splitlines content)) \<noteq> 2"
      "update_file psql fn queries fs = (Inl ValueError, fs)"
  | (spliced) content outs pre s mid e post where "fs fn = Some content"
      "run_queries psql queries [] = Inr outs"
      "splitlines content = pre @ s # mid @ e # post" "is_marker s" "is_marker e"
      "\<forall>l\<in>set pre. \<not> is_marker l" "\<forall>l\<in>set mid. \<not> is_marker l"
      "\<forall>l\<in>set post. \<not> is_marker l"
      "update_file psql fn queries fs =
         (Inr (), fs(fn \<mapsto> concat (map (\<lambda>l. l @ [LF]) (pre @ s # indent outs @ e # post))))"
proof (cases "fs fn")
  case None
  with missing update_file_missing show ?thesis by blast
next
  case (Some content)
  show ?thesis
  proof (cases "run_queries psql queries []")
    case (Inl e)
    with Some query_error update_file_query_error show ?thesis by blast
  next
    case (Inr outs)
    show ?thesis
    proof (cases "length (filter is_marker (splitlines content)) = 2")
      case False
      with Some Inr bad_markers update_file_bad_markers show ?thesis by blast
    next
      case True
      from filter_two_decomp[OF True] obtain pre s mid e post where
        d: "splitlines content = pre @ s # mid @ e # post" "is_marker s" "is_marker e"
          "\<forall>l\<in>set pre. \<not> is_marker l" "\<forall>l\<in>set mid. \<not> is_marker l"
          "\<forall>l\<in>set post. \<not> is_marker l"
        by blast
      have "update_file psql fn queries fs =
         (Inr (), fs(fn \<mapsto> concat (map (\<lambda>l. l @ [LF]) (pre @ s # indent outs @ e # post))))"
        using Some Inr d by (rule update_file_splice)
      with Some Inr d show ?thesis by (rule spliced)
    qed
  qed
qed

lemma update_file_error_unchanged:
  "fst (update_file psql fn queries fs) = Inl err \<Longrightarrow> snd (update_file psql fn queries fs) = fs"
  by (cases rule: update_file_cases[of fs fn psql queries]) simp_all

lemma run_queries_total:
  "\<forall>q\<in>set queries. \<not> isl (psql q) \<Longrightarrow> \<exists>outs. run_queries psql queries new = Inr outs"
proof (induction queries arbitrary: new)
  case Nil
  show ?case by simp
next
  case (Cons q queries)
  then obtain out where "psql q = Inr out" by (cases "psql q") auto
  with Cons show ?case by simp
qed

subsection \<open>The file written by a successful run, read again\<close>

lemma spliced_lines_no_break:
  assumes "run_queries psql queries [] = Inr outs"
    and "splitlines content = pre @ s # mid @ e # post"
  shows "\<forall>l\<in>set (pre @ s # indent outs @ e # post). LF \<notin> set l \<and> CR \<notin> set l"
proof -
  have old: "\<forall>l\<in>set (pre @ s # mid @ e # post). LF \<notin> set l \<and> CR \<notin> set l"
    using splitlines_no_break[of _ content] assms(2) by simp
  have "\<forall>l\<in>set outs. LF \<notin> set l \<and> CR \<notin> set l"
    using assms(1) by (rule run_queries_no_break) simp
  then have "\<forall>l\<in>set (indent outs). LF \<notin> set l \<and> CR \<notin> set l"
    by (rule indent_no_break)
  with old show ?thesis by auto
qed

lemma spliced_content_lines:
  assumes "run_queries psql queries [] = Inr outs"
    and "splitlines content = pre @ s # mid @ e # post"
  shows "splitlines (concat (map (\<lambda>l. l @ [LF]) (pre @ s # indent outs @ e # post))) =
         pre @ s # indent outs @ e # post"
  using spliced_lines_no_break[OF assms] by (rule splitlines_unlines)

lemma unlines_no_CR:
  "\<forall>l\<in>set ls. LF \<notin> set l \<and> CR \<notin> set l \<Longrightarrow> CR \<notin> set (concat (map (\<lambda>l. l @ [LF]) ls))"
  by (induction ls) auto

lemma unlines_last:
  "ls \<noteq> [] \<Longrightarrow> last (concat (map (\<lambda>l. l @ [LF]) ls)) = LF"
  by (induction ls) auto

lemma update_file_again:
  assumes "fs fn = Some content" "run_queries psql queries [] = Inr outs"
    "splitlines content = pre @ s # mid @ e # post" "is_marker s" "is_marker e"
    "\<forall>l\<in>set pre. \<not> is_marker l" "\<forall>l\<in>set post. \<not> is_marker l"
  defines "fs1 \<equiv> fs(fn \<mapsto> concat (map (\<lambda>l. l @ [LF]) (pre @ s # indent outs @ e # post)))"
  shows "update_file psql fn queries fs1 =
         (if \<forall>l\<in>set (indent outs). \<not> is_marker l then Inr () else Inl ValueError, fs1)"
proof -
  let ?c1 = "concat (map (\<lambda>l. l @ [LF]) (pre @ s # indent outs @ e # post))"
  have f1: "fs1 fn = Some ?c1" by (simp add: fs1_def)
  have l1: "splitlines ?c1 = pre @ s # indent outs @ e # post"
    using assms(2,3) by (rule spliced_content_lines)
  show ?thesis
  proof (cases "\<forall>l\<in>set (indent outs). \<not> is_marker l")
    case True
    have "update_file psql fn queries fs1 = (Inr (), fs1(fn \<mapsto> ?c1))"
      using f1 assms(2) l1 assms(4,5,6) True assms(7) by (rule update_file_splice)
    moreover have "fs1(fn \<mapsto> ?c1) = fs1" by (simp add: fs1_def)
    ultimately show ?thesis using True by simp
  next
    case False
    then have "filter is_marker (indent outs) \<noteq> []"
      by (simp add: filter_empty_conv)
    then have "length (filter is_marker (indent outs)) \<noteq> 0"
      by simp
    moreover have "length (filter is_marker (pre @ s # indent outs @ e # post)) =
        2 + length (filter is_marker (indent outs))"
      using assms(4-7) by simp
    ultimately have "length (filter is_marker (splitlines ?c1)) \<noteq> 2"
      unfolding l1 by linarith
    with f1 assms(2) have "update_file psql fn queries fs1 = (Inl ValueError, fs1)"
      by (rule update_file_bad_markers)
    with False show ?thesis by simp
  qed
qed

subsection \<open>The sample inputs, evaluated\<close>

lemma sample_file: "single_file target sample_content target = Some sample_content"
  by (simp add: single_file_def)

lemma sample_lines:
  "splitlines sample_content =
   [''x = 1''] @ ''# autogenerated: start'' # [''OLD_LINE = 0''] @ ''# autogenerated: end'' # [''y = 2'']"
  by code_simp

lemma sample_markers:
  "is_marker ''# autogenerated: start''" "is_marker ''# autogenerated: end''"
  "\<forall>l\<in>set [''x = 1'']. \<not> is_marker l" "\<forall>l\<in>set [''OLD_LINE = 0'']. \<not> is_marker l"
  "\<forall>l\<in>set [''y = 2'']. \<not> is_marker l"
  by code_simp+

lemma reversed_file: "single_file target reversed_content target = Some reversed_content"
  by (simp add: single_file_def)

lemma reversed_lines:
  "splitlines reversed_content =
   [''x = 1''] @ ''# autogenerated: end'' # [''OLD_LINE = 0''] @ ''# autogenerated: start'' # [''y = 2'']"
  by code_simp

lemma echo_one_line: "run_queries echo_psql [''NEW_A = 1''] [] = Inr [''NEW_A = 1'']"
  by (simp add: echo_psql_def splitlines_def)

lemma echo_two_lines:
  "run_queries echo_psql [''NEW_A = 1'', ''NEW_B = 2''] [] = Inr [''NEW_A = 1'', ''NEW_B = 2'']"
  by (simp add: echo_psql_def splitlines_def)

subsection \<open>The formatter\<close>

text \<open>
  C6: the formatting step keeps the number and the order of the lines; a non-empty line
  gets exactly four spaces in front, an empty line stays empty.
\<close>

theorem indent_lines:
  "length (indent ls) = length ls \<and>
   (\<forall>i<length ls. indent ls ! i = (if ls ! i = [] then [] else ''    '' @ ls ! i))"
  by (simp add: indent_def eval_nat_numeral)

theorem indent_lines_witness:
  "length (indent [''a = 1'', [], ''  b'']) = 3 \<and>
   indent [''a = 1'', [], ''  b''] ! 0 = ''    a = 1'' \<and>
   indent [''a = 1'', [], ''  b''] ! 1 = [] \<and>
   indent [''a = 1'', [], ''  b''] ! 2 = ''      b''"
proof -
  note t = indent_lines [of "[''a = 1'', [], ''  b'']"]
  note n = t [THEN conjunct2, rule_format]
  from t n [of 0] n [of 1] n [of 2] show ?thesis by simp
qed

subsection \<open>The query runner\<close>

text \<open>
  C7: when every query succeeds, the collected lines are the output lines of the first
  query, then those of the second, and so on, each query's lines in the order \<^verbatim>\<open>psql\<close>
  printed them; the block written between the markers is this list, indented.
\<close>

theorem replacement_block_order:
  assumes "\<forall>q\<in>set queries. psql q = Inr (out q)"
    and "fs fn = Some content"
    and "splitlines content = pre @ s # mid @ e # post"
    and "is_marker s" "is_marker e"
    and "\<forall>l\<in>set pre. \<not> is_marker l" "\<forall>l\<in>set mid. \<not> is_marker l"
      "\<forall>l\<in>set post. \<not> is_marker l"
  shows "run_queries psql queries [] = Inr (concat (map (\<lambda>q. splitlines (out q)) queries)) \<and>
    update_file psql fn queries fs =
      (Inr (), fs(fn \<mapsto> concat (map (\<lambda>l. l @ [LF])
         (pre @ s # indent (concat (map (\<lambda>q. splitlines (out q)) queries)) @ e # post))))"
proof -
  have r: "run_queries psql queries [] = Inr (concat (map (\<lambda>q. splitlines (out q)) queries))"
    using run_queries_ok[OF assms(1), of "[]"] by simp
  have "update_file psql fn queries fs =
      (Inr (), fs(fn \<mapsto> concat (map (\<lambda>l. l @ [LF])
         (pre @ s # indent (concat (map (\<lambda>q. splitlines (out q)) queries)) @ e # post))))"
    using assms(2) r assms(3-8) by (rule update_file_splice)
  with r show ?thesis by simp
qed

theorem replacement_block_order_witness:
  "run_queries echo_psql [''B = 2'', ''A = 1\<newline>A = 0''] [] = Inr [''B = 2'', ''A = 1'', ''A = 0''] \<and>
   snd (update_file echo_psql target [''B = 2'', ''A = 1\<newline>A = 0''] (single_file target sample_content))
     target =
   Some ''x = 1\<newline># autogenerated: start\<newline>    B = 2\<newline>    A = 1\<newline>    A = 0\<newline># autogenerated: end\<newline>y = 2\<newline>''"
proof -
  have q: "\<forall>q\<in>set [''B = 2'', ''A = 1\<newline>A = 0'']. echo_psql q = Inr (q @ [LF])"
    by (simp add: echo_psql_def)
  have f: "single_file target sample_content target = Some sample_content"
    by (simp add: single_file_def)
  have l: "concat (map (\<lambda>q. splitlines (q @ [LF])) [''B = 2'', ''A = 1\<newline>A = 0'']) =
      [''B = 2'', ''A = 1'', ''A = 0'']"
    by code_simp
  have i: "indent [''B = 2'', ''A = 1'', ''A = 0''] = [''    B = 2'', ''    A = 1'', ''    A = 0'']"
    by code_simp
  have "run_queries echo_psql [''B = 2'', ''A = 1\<newline>A = 0''] [] =
      Inr (concat (map (\<lambda>q. splitlines (q @ [LF])) [''B = 2'', ''A = 1\<newline>A = 0''])) \<and>
    update_file echo_psql target [''B = 2'', ''A = 1\<newline>A = 0''] (single_file target sample_content) =
      (Inr (), (single_file target sample_content)(target \<mapsto> concat (map (\<lambda>l. l @ [LF])
         ([''x = 1''] @ ''# autogenerated: start'' #
          indent (concat (map (\<lambda>q. splitlines (q @ [LF])) [''B = 2'', ''A = 1\<newline>A = 0''])) @
          ''# autogenerated: end'' # [''y = 2'']))))"
    using q f sample_lines sample_markers by (rule replacement_block_order)
  then have r: "run_queries echo_psql [''B = 2'', ''A = 1\<newline>A = 0''] [] =
      Inr [''B = 2'', ''A = 1'', ''A = 0'']"
    and u: "update_file echo_psql target [''B = 2'', ''A = 1\<newline>A = 0'']
        (single_file target sample_content) =
      (Inr (), (single_file target sample_content)(target \<mapsto> concat (map (\<lambda>l. l @ [LF])
         ([''x = 1''] @ ''# autogenerated: start'' #
          [''    B = 2'', ''    A = 1'', ''    A = 0''] @
          ''# autogenerated: end'' # [''y = 2'']))))"
    unfolding l i by blast+
  have c: "concat (map (\<lambda>l. l @ [LF])
         ([''x = 1''] @ ''# autogenerated: start'' #
          [''    B = 2'', ''    A = 1'', ''    A = 0''] @
          ''# autogenerated: end'' # [''y = 2''])) =
      ''x = 1\<newline># autogenerated: start\<newline>    B = 2\<newline>    A = 1\<newline>    A = 0\<newline># autogenerated: end\<newline>y = 2\<newline>''"
    by simp
  show ?thesis unfolding u c using r by simp
qed

subsection \<open>Failures leave the file alone\<close>

text \<open>
  C8: when one of the queries of a pipeline fails, \<^verbatim>\<open>update_file\<close> ends with an error
  and the file system is the one it started with. In a run of both pipelines, a failure of
  the second pipeline's own query leaves the file system as the first pipeline left it.
\<close>

theorem query_failure_aborts_before_write:
  "(q \<in> set queries \<longrightarrow> psql q = Inl e \<longrightarrow>
      (\<exists>e'. update_file psql fn queries fs = (Inl e', fs))) \<and>
   (fst (update_python_oids psql' black ROOT fs') = Inr () \<longrightarrow>
    psql' cython_oids_sql = Inl e \<longrightarrow>
      (\<exists>e'. main psql' black ROOT fs' =
             (Inl e', snd (update_python_oids psql' black ROOT fs'))))"
proof (intro conjI impI)
  assume q: "q \<in> set queries" "psql q = Inl e"
  from q have "\<exists>e'. run_queries psql queries [] = Inl e'"
    by (rule run_queries_fail)
  then obtain e' where r: "run_queries psql queries [] = Inl e'"
    by blast
  show "\<exists>e'. update_file psql fn queries fs = (Inl e', fs)"
  proof (cases "fs fn")
    case None
    then show ?thesis by (simp add: update_file_missing)
  next
    case (Some content)
    from Some r have "update_file psql fn queries fs = (Inl e', fs)"
      by (rule update_file_query_error)
    then show ?thesis by blast
  qed
next
  assume a: "fst (update_python_oids psql' black ROOT fs') = Inr ()"
    and c: "psql' cython_oids_sql = Inl e"
  define fn where "fn = ROOT @ [''psycopg_c'', ''psycopg_c'', ''_psycopg'', ''oids.pxd'']"
  from a obtain fs1 where u: "update_python_oids psql' black ROOT fs' = (Inr (), fs1)"
    by (cases "update_python_oids psql' black ROOT fs'") auto
  have "cython_oids_sql \<in> set [version_sql, cython_oids_sql]" by simp
  then have "\<exists>e'. run_queries psql' [version_sql, cython_oids_sql] [] = Inl e'"
    using c by (rule run_queries_fail)
  then obtain e' where r: "run_queries psql' [version_sql, cython_oids_sql] [] = Inl e'"
    by blast
  have "\<exists>e'. update_file psql' fn [version_sql, cython_oids_sql] fs1 = (Inl e', fs1)"
  proof (cases "fs1 fn")
    case None
    then show ?thesis by (simp add: update_file_missing)
  next
    case (Some content)
    from Some r have "update_file psql' fn [version_sql, cython_oids_sql] fs1 = (Inl e', fs1)"
      by (rule update_file_query_error)
    then show ?thesis by blast
  qed
  then show "\<exists>e'. main psql' black ROOT fs' =
      (Inl e', snd (update_python_oids psql' black ROOT fs'))"
    using u by (simp add: main_def update_cython_oids_def fn_def)
qed

theorem query_failure_aborts_before_write_witness:
  "[] \<in> set [''A = 1'', [], ''C = 3''] \<and> echo_psql [] = Inl CalledProcessError \<and>
   (\<exists>e'. update_file echo_psql target [''A = 1'', [], ''C = 3'']
           (single_file target sample_content) = (Inl e', single_file target sample_content)) \<and>
   fst (update_python_oids failing_cython_psql black_noop [''repo''] two_files) = Inr () \<and>
   failing_cython_psql cython_oids_sql = Inl CalledProcessError \<and>
   (\<exists>e'. main failing_cython_psql black_noop [''repo''] two_files =
          (Inl e', snd (update_python_oids failing_cython_psql black_noop [''repo''] two_files)))"
proof -
  have h1: "[] \<in> set [''A = 1'', [], ''C = 3'']" by simp
  have h2: "echo_psql [] = Inl CalledProcessError" by (simp add: echo_psql_def)
  have f: "two_files [''repo'', ''psycopg'', ''psycopg'', ''postgres.py''] = Some sample_content"
    by (simp add: two_files_def)
  have r: "run_queries failing_cython_psql
      [version_sql, py_types_sql, py_ranges_sql, py_multiranges_sql] [] =
      Inr [''# Generated from PostgreSQL 14.0'', ''TypeInfo(1),'', ''TypeInfo(1),'', ''TypeInfo(1),'']"
    by (simp add: failing_cython_psql_def splitlines_def)
  have "update_file failing_cython_psql [''repo'', ''psycopg'', ''psycopg'', ''postgres.py'']
      [version_sql, py_types_sql, py_ranges_sql, py_multiranges_sql] two_files =
      (Inr (), two_files([''repo'', ''psycopg'', ''psycopg'', ''postgres.py''] \<mapsto>
         concat (map (\<lambda>l. l @ [LF]) ([''x = 1''] @ ''# autogenerated: start'' #
           indent [''# Generated from PostgreSQL 14.0'', ''TypeInfo(1),'', ''TypeInfo(1),'',
             ''TypeInfo(1),''] @ ''# autogenerated: end'' # [''y = 2'']))))"
    using f r sample_lines sample_markers by (rule update_file_splice)
  then have h3: "fst (update_python_oids failing_cython_psql black_noop [''repo''] two_files) = Inr ()"
    by (simp add: update_python_oids_def black_noop_def)
  have h4: "failing_cython_psql cython_oids_sql = Inl CalledProcessError"
    by (simp add: failing_cython_psql_def)
  from h1 h2 h3 h4
    query_failure_aborts_before_write [where q = "[]" and queries = "[''A = 1'', [], ''C = 3'']"
      and psql = echo_psql and e = CalledProcessError and fn = target
      and fs = "single_file target sample_content" and psql' = failing_cython_psql
      and black = black_noop and ROOT = "[''repo'']" and fs' = two_files]
  show ?thesis by blast
qed

subsection \<open>Files without exactly two marker lines\<close>

text \<open>
  C2, as amended: for a target file that exists and in which the number of lines matching
  the marker pattern is not two (none, one, three or more), \<^verbatim>\<open>update_file\<close> ends with
  an error before any write, and the file system is unchanged. The error is the
  \<^verbatim>\<open>ValueError\<close> of the failed unpacking when every query succeeds; when a query
  fails, the run ends earlier, at the query step, with the error of the first failing query.
\<close>

theorem bad_marker_count_fails_without_write:
  assumes "fs fn = Some content"
    and "length (filter is_marker (splitlines content)) \<noteq> 2"
  shows "(\<exists>e. fst (update_file psql fn queries fs) = Inl e) \<and>
         snd (update_file psql fn queries fs) = fs \<and>
         ((\<forall>q\<in>set queries. \<not> isl (psql q)) \<longrightarrow>
            update_file psql fn queries fs = (Inl ValueError, fs)) \<and>
         (\<forall>ok q rest e.
            queries = ok @ q # rest \<longrightarrow> (\<forall>q'\<in>set ok. \<not> isl (psql q')) \<longrightarrow> psql q = Inl e \<longrightarrow>
            update_file psql fn queries fs = (Inl e, fs))"
proof -
  have first: "update_file psql fn queries fs = (Inl e, fs)"
    if "queries = ok @ q # rest" "\<forall>q'\<in>set ok. \<not> isl (psql q')" "psql q = Inl e"
    for ok q rest e
  proof -
    from that(2,3) have "run_queries psql (ok @ q # rest) [] = Inl e"
      by (rule run_queries_first_failure)
    with that(1) have "run_queries psql queries [] = Inl e"
      by simp
    with assms(1) show ?thesis
      by (rule update_file_query_error)
  qed
  show ?thesis
  proof (cases "run_queries psql queries []")
    case (Inl e)
    from run_queries_total[of queries psql "[]"] Inl
    have "\<not> (\<forall>q\<in>set queries. \<not> isl (psql q))" by auto
    moreover from assms(1) Inl have "update_file psql fn queries fs = (Inl e, fs)"
      by (rule update_file_query_error)
    ultimately show ?thesis using first by auto
  next
    case (Inr outs)
    from assms(1) Inr assms(2) have "update_file psql fn queries fs = (Inl ValueError, fs)"
      by (rule update_file_bad_markers)
    then show ?thesis using first by auto
  qed
qed

theorem bad_marker_count_fails_without_write_witness:
  "single_file target start_only_content target = Some start_only_content \<and>
   length (filter is_marker (splitlines start_only_content)) = 1 \<and>
   \<not> isl (echo_psql ''NEW_A = 1'') \<and>
   update_file echo_psql target [''NEW_A = 1''] (single_file target start_only_content) =
     (Inl ValueError, single_file target start_only_content) \<and>
   echo_psql [] = Inl CalledProcessError \<and>
   update_file echo_psql target [''NEW_A = 1'', [], ''C = 3'']
       (single_file target start_only_content) =
     (Inl CalledProcessError, single_file target start_only_content)"
proof -
  have h1: "single_file target start_only_content target = Some start_only_content"
    by (simp add: single_file_def)
  have h2: "length (filter is_marker (splitlines start_only_content)) = 1"
    by code_simp
  then have h2': "length (filter is_marker (splitlines start_only_content)) \<noteq> 2"
    by simp
  have h3: "\<forall>q\<in>set [''NEW_A = 1'']. \<not> isl (echo_psql q)"
    by (simp add: echo_psql_def)
  have h4: "\<not> isl (echo_psql ''NEW_A = 1'')"
    by (simp add: echo_psql_def)
  have h5: "echo_psql [] = Inl CalledProcessError"
    by (simp add: echo_psql_def)
  have h6: "[''NEW_A = 1'', [], ''C = 3''] = [''NEW_A = 1''] @ [] # [''C = 3'']"
    by simp
  note a = bad_marker_count_fails_without_write [where fs = "single_file target start_only_content"
      and fn = target and content = start_only_content and psql = echo_psql
      and queries = "[''NEW_A = 1'']", OF h1 h2']
  note b = bad_marker_count_fails_without_write [where fs = "single_file target start_only_content"
      and fn = target and content = start_only_content and psql = echo_psql
      and queries = "[''NEW_A = 1'', [], ''C = 3'']", OF h1 h2']
  from a h3 have 1: "update_file echo_psql target [''NEW_A = 1'']
      (single_file target start_only_content) =
      (Inl ValueError, single_file target start_only_content)"
    by blast
  from b have "\<forall>ok q rest e.
      [''NEW_A = 1'', [], ''C = 3''] = ok @ q # rest \<longrightarrow>
      (\<forall>q'\<in>set ok. \<not> isl (echo_psql q')) \<longrightarrow> echo_psql q = Inl e \<longrightarrow>
      update_file echo_psql target [''NEW_A = 1'', [], ''C = 3'']
        (single_file target start_only_content) =
      (Inl e, single_file target start_only_content)"
    by blast
  then have "[''NEW_A = 1'', [], ''C = 3''] = [''NEW_A = 1''] @ [] # [''C = 3''] \<longrightarrow>
      (\<forall>q'\<in>set [''NEW_A = 1'']. \<not> isl (echo_psql q')) \<longrightarrow>
      echo_psql [] = Inl CalledProcessError \<longrightarrow>
      update_file echo_psql target [''NEW_A = 1'', [], ''C = 3'']
        (single_file target start_only_content) =
      (Inl CalledProcessError, single_file target start_only_content)"
    by (elim allE)
  with h6 h3 h5
  have 2: "update_file echo_psql target [''NEW_A = 1'', [], ''C = 3'']
      (single_file target start_only_content) =
      (Inl CalledProcessError, single_file target start_only_content)"
    by (elim impE)
  from h1 h2 h4 1 h5 2 show ?thesis by blast
qed

text \<open>
  C2 as written fails on the kind of the error: this file has a single marker line, the
  only query fails, and the run ends with the error of the query, not with the
  \<^verbatim>\<open>ValueError\<close> of the unpacking.
\<close>

theorem failing_query_before_unpacking_counterexample:
  "single_file target start_only_content target = Some start_only_content \<and>
   length (filter is_marker (splitlines start_only_content)) = 1 \<and>
   echo_psql [] = Inl CalledProcessError \<and>
   fst (update_file echo_psql target [[]] (single_file target start_only_content)) =
     Inl CalledProcessError \<and>
   fst (update_file echo_psql target [[]] (single_file target start_only_content)) \<noteq>
     Inl ValueError"
proof (intro conjI)
  show "single_file target start_only_content target = Some start_only_content"
    by (simp add: single_file_def)
  show "length (filter is_marker (splitlines start_only_content)) = 1"
    by code_simp
  show "echo_psql [] = Inl CalledProcessError"
    by (simp add: echo_psql_def)
  show c: "fst (update_file echo_psql target [[]] (single_file target start_only_content)) =
     Inl CalledProcessError"
    by (simp add: update_file_def single_file_def echo_psql_def)
  show "fst (update_file echo_psql target [[]] (single_file target start_only_content)) \<noteq>
     Inl ValueError"
    unfolding c by simp
qed

subsection \<open>The splice\<close>

text \<open>
  C5: when the file has exactly two marker lines and the queries succeed, the new content
  of the file is: the lines up to and including the first marker, the indented replacement
  lines, the second marker and the lines after it, each line followed by one newline, so
  that the file ends with a newline. The lines that stood between the markers are gone;
  with no replacement lines the two markers are adjacent.
\<close>

theorem splice_between_markers:
  assumes "fs fn = Some content" "run_queries psql queries [] = Inr outs"
    and "splitlines content = pre @ s # mid @ e # post" "is_marker s" "is_marker e"
    and "\<forall>l\<in>set pre. \<not> is_marker l" "\<forall>l\<in>set mid. \<not> is_marker l"
      "\<forall>l\<in>set post. \<not> is_marker l"
  shows "update_file psql fn queries fs =
      (Inr (), fs(fn \<mapsto> concat (map (\<lambda>l. l @ [LF]) (pre @ s # indent outs @ e # post)))) \<and>
    concat (map (\<lambda>l. l @ [LF]) (pre @ s # indent outs @ e # post)) =
      join [LF] (pre @ s # indent outs @ e # post) @ [LF] \<and>
    last (concat (map (\<lambda>l. l @ [LF]) (pre @ s # indent outs @ e # post))) = LF \<and>
    (outs = [] \<longrightarrow>
      update_file psql fn queries fs =
        (Inr (), fs(fn \<mapsto> concat (map (\<lambda>l. l @ [LF]) (pre @ [s, e] @ post)))))"
proof -
  let ?ls = "pre @ s # indent outs @ e # post"
  have u: "update_file psql fn queries fs = (Inr (), fs(fn \<mapsto> concat (map (\<lambda>l. l @ [LF]) ?ls)))"
    using assms by (rule update_file_splice)
  have j: "join [LF] ?ls @ [LF] = concat (map (\<lambda>l. l @ [LF]) ?ls)"
    by (rule join_terminated) simp
  have l: "last (concat (map (\<lambda>l. l @ [LF]) ?ls)) = LF"
    by (rule unlines_last) simp
  have e: "outs = [] \<longrightarrow>
      concat (map (\<lambda>l. l @ [LF]) ?ls) = concat (map (\<lambda>l. l @ [LF]) (pre @ [s, e] @ post))"
    by (simp add: indent_def)
  show ?thesis
  proof (intro conjI impI)
    show "update_file psql fn queries fs = (Inr (), fs(fn \<mapsto> concat (map (\<lambda>l. l @ [LF]) ?ls)))"
      by (rule u)
    show "concat (map (\<lambda>l. l @ [LF]) ?ls) = join [LF] ?ls @ [LF]"
      by (rule j [symmetric])
    show "last (concat (map (\<lambda>l. l @ [LF]) ?ls)) = LF"
      by (rule l)
    assume "outs = []"
    with e have "concat (map (\<lambda>l. l @ [LF]) ?ls) =
        concat (map (\<lambda>l. l @ [LF]) (pre @ [s, e] @ post))"
      by blast
    with u show "update_file psql fn queries fs =
        (Inr (), fs(fn \<mapsto> concat (map (\<lambda>l. l @ [LF]) (pre @ [s, e] @ post))))"
      by simp
  qed
qed

theorem splice_between_markers_witness:
  "update_file echo_psql target [] (single_file target sample_content) =
     (Inr (), (single_file target sample_content)(target \<mapsto>
        ''x = 1\<newline># autogenerated: start\<newline># autogenerated: end\<newline>y = 2\<newline>'')) \<and>
   last ''x = 1\<newline># autogenerated: start\<newline># autogenerated: end\<newline>y = 2\<newline>'' = LF"
proof -
  have r0: "run_queries echo_psql [] [] = Inr []"
    by simp
  note t = splice_between_markers [where fs = "single_file target sample_content"
      and fn = target and content = sample_content and psql = echo_psql and queries = "[]"
      and outs = "[]" and pre = "[''x = 1'']" and s = "''# autogenerated: start''"
      and mid = "[''OLD_LINE = 0'']" and e = "''# autogenerated: end''" and post = "[''y = 2'']",
      OF sample_file r0 sample_lines sample_markers]
  have c: "concat (map (\<lambda>l. l @ [LF])
        ([''x = 1''] @ [''# autogenerated: start'', ''# autogenerated: end''] @ [''y = 2''])) =
      ''x = 1\<newline># autogenerated: start\<newline># autogenerated: end\<newline>y = 2\<newline>''"
    by simp
  from t have "update_file echo_psql target [] (single_file target sample_content) =
      (Inr (), (single_file target sample_content)(target \<mapsto> concat (map (\<lambda>l. l @ [LF])
        ([''x = 1''] @ [''# autogenerated: start'', ''# autogenerated: end''] @ [''y = 2'']))))"
    by blast
  then show ?thesis unfolding c by simp
qed

subsection \<open>Line terminators\<close>

text \<open>
  C9: a successful run writes the spliced line list joined with LF and followed by one
  more LF. The lines come from \<^verbatim>\<open>splitlines\<close>, so whatever terminated them in the
  original file (LF, CRLF or a lone CR), inside or outside the region, the new content has
  no CR at all, every line of it ends with LF, and it ends with LF also when the original
  did not end with a terminator: reading it back gives the same lines.
\<close>

theorem rewrite_normalises_line_terminators:
  assumes "fst (update_file psql fn queries fs) = Inr ()"
  shows "\<exists>content outs pre s mid e post lines'.
      fs fn = Some content \<and> run_queries psql queries [] = Inr outs \<and>
      splitlines content = pre @ s # mid @ e # post \<and>
      lines' = pre @ s # indent outs @ e # post \<and>
      snd (update_file psql fn queries fs) fn = Some (join [LF] lines' @ [LF]) \<and>
      join [LF] lines' @ [LF] = concat (map (\<lambda>l. l @ [LF]) lines') \<and>
      CR \<notin> set (join [LF] lines' @ [LF]) \<and>
      last (join [LF] lines' @ [LF]) = LF \<and>
      splitlines (join [LF] lines' @ [LF]) = lines'"
proof (cases rule: update_file_cases[of fs fn psql queries])
  case missing
  with assms show ?thesis by simp
next
  case (query_error content e)
  with assms show ?thesis by simp
next
  case (bad_markers content outs)
  with assms show ?thesis by simp
next
  case (spliced content outs pre s mid e post)
  let ?ls = "pre @ s # indent outs @ e # post"
  have j: "join [LF] ?ls @ [LF] = concat (map (\<lambda>l. l @ [LF]) ?ls)"
    by (rule join_terminated) simp
  have nb: "\<forall>l\<in>set ?ls. LF \<notin> set l \<and> CR \<notin> set l"
    using spliced(2,3) by (rule spliced_lines_no_break)
  have cr: "CR \<notin> set (join [LF] ?ls @ [LF])"
    unfolding j using nb by (rule unlines_no_CR)
  have la: "last (join [LF] ?ls @ [LF]) = LF"
    unfolding j by (rule unlines_last) simp
  have sp: "splitlines (join [LF] ?ls @ [LF]) = ?ls"
    unfolding j using spliced(2,3) by (rule spliced_content_lines)
  have w: "snd (update_file psql fn queries fs) fn = Some (join [LF] ?ls @ [LF])"
    unfolding j using spliced(9) by simp
  show ?thesis
    by (rule exI[of _ content], rule exI[of _ outs], rule exI[of _ pre], rule exI[of _ s],
        rule exI[of _ mid], rule exI[of _ e], rule exI[of _ post], rule exI[of _ ?ls])
       (intro conjI refl spliced(1,2,3) w j cr la sp)
qed

theorem rewrite_normalises_line_terminators_witness:
  "fst (update_file echo_psql target [] (single_file target crlf_content)) = Inr () \<and>
   snd (update_file echo_psql target [] (single_file target crlf_content)) target =
     Some ''x = 1\<newline># autogenerated: start\<newline># autogenerated: end\<newline>y = 2\<newline>'' \<and>
   (\<exists>lines'. snd (update_file echo_psql target [] (single_file target crlf_content)) target =
       Some (join [LF] lines' @ [LF]) \<and>
     CR \<notin> set (join [LF] lines' @ [LF]) \<and> last (join [LF] lines' @ [LF]) = LF)"
proof -
  have h: "fst (update_file echo_psql target [] (single_file target crlf_content)) = Inr ()"
    by code_simp
  have c: "snd (update_file echo_psql target [] (single_file target crlf_content)) target =
     Some ''x = 1\<newline># autogenerated: start\<newline># autogenerated: end\<newline>y = 2\<newline>''"
    by code_simp
  from rewrite_normalises_line_terminators [OF h]
  obtain content outs pre s mid e post lines' where
    "snd (update_file echo_psql target [] (single_file target crlf_content)) target =
       Some (join [LF] lines' @ [LF])"
    "CR \<notin> set (join [LF] lines' @ [LF])" "last (join [LF] lines' @ [LF]) = LF"
    by (elim exE conjE)
  then have "\<exists>lines'. snd (update_file echo_psql target [] (single_file target crlf_content)) target =
       Some (join [LF] lines' @ [LF]) \<and>
     CR \<notin> set (join [LF] lines' @ [LF]) \<and> last (join [LF] lines' @ [LF]) = LF"
    by blast
  with h c show ?thesis by blast
qed

subsection \<open>Running the splicer twice\<close>

text \<open>
  C4: a second run of \<^verbatim>\<open>update_file\<close> on the same file with the same query results
  leaves the file system exactly as the first run left it, so the content of the target
  file is the same after both runs. When the first run succeeded and no line of the
  replacement block is itself a marker line, the second run succeeds as well and writes
  the content that is already there.
\<close>

theorem update_file_twice:
  "snd (update_file psql fn queries (snd (update_file psql fn queries fs))) =
     snd (update_file psql fn queries fs) \<and>
   (fst (update_file psql fn queries fs) = Inr () \<longrightarrow>
    run_queries psql queries [] = Inr outs \<longrightarrow>
    (\<forall>l\<in>set (indent outs). \<not> is_marker l) \<longrightarrow>
      update_file psql fn queries (snd (update_file psql fn queries fs)) =
        (Inr (), snd (update_file psql fn queries fs)))"
proof (cases rule: update_file_cases[of fs fn psql queries])
  case missing
  then show ?thesis by simp
next
  case (query_error content e)
  then show ?thesis by simp
next
  case (bad_markers content outs')
  then show ?thesis by simp
next
  case (spliced content outs' pre s mid e post)
  let ?fs1 = "fs(fn \<mapsto> concat (map (\<lambda>l. l @ [LF]) (pre @ s # indent outs' @ e # post)))"
  have again: "update_file psql fn queries ?fs1 =
      (if \<forall>l\<in>set (indent outs'). \<not> is_marker l then Inr () else Inl ValueError, ?fs1)"
    using spliced(1,2,3,4,5,6,8) by (rule update_file_again)
  have first: "update_file psql fn queries fs = (Inr (), ?fs1)"
    by (rule spliced(9))
  show ?thesis
  proof (intro conjI impI)
    show "snd (update_file psql fn queries (snd (update_file psql fn queries fs))) =
        snd (update_file psql fn queries fs)"
      unfolding first snd_conv again by simp
  next
    assume "run_queries psql queries [] = Inr outs"
      and nm: "\<forall>l\<in>set (indent outs). \<not> is_marker l"
    with spliced(2) have "outs' = outs" by simp
    with nm again show "update_file psql fn queries (snd (update_file psql fn queries fs)) =
        (Inr (), snd (update_file psql fn queries fs))"
      unfolding first snd_conv by simp
  qed
qed

theorem update_file_twice_witness:
  "fst (update_file echo_psql target [''NEW_A = 1'', ''NEW_B = 2'']
         (single_file target sample_content)) = Inr () \<and>
   update_file echo_psql target [''NEW_A = 1'', ''NEW_B = 2'']
     (snd (update_file echo_psql target [''NEW_A = 1'', ''NEW_B = 2'']
            (single_file target sample_content))) =
     (Inr (), snd (update_file echo_psql target [''NEW_A = 1'', ''NEW_B = 2'']
                    (single_file target sample_content)))"
proof -
  have h1: "fst (update_file echo_psql target [''NEW_A = 1'', ''NEW_B = 2'']
         (single_file target sample_content)) = Inr ()"
    by code_simp
  have h3: "\<forall>l\<in>set (indent [''NEW_A = 1'', ''NEW_B = 2'']). \<not> is_marker l"
    by code_simp
  from h1 echo_two_lines h3
    update_file_twice [where psql = echo_psql and fn = target
      and queries = "[''NEW_A = 1'', ''NEW_B = 2'']" and fs = "single_file target sample_content"
      and outs = "[''NEW_A = 1'', ''NEW_B = 2'']"]
  show ?thesis by blast
qed

text \<open>
  A replacement block that contains a marker line makes the second run fail on the marker
  count; the file stays as the first run wrote it.
\<close>

lemma second_run_with_marker_in_block:
  "fst (update_file echo_psql target [''# autogenerated: end'']
         (single_file target sample_content)) = Inr () \<and>
   fst (update_file echo_psql target [''# autogenerated: end'']
         (snd (update_file echo_psql target [''# autogenerated: end'']
                (single_file target sample_content)))) = Inl ValueError"
  by code_simp

subsection \<open>Which marker line is taken for the start\<close>

text \<open>
  C1, as amended: of the two lines that match the marker pattern, the first in the file is
  taken for the start and the second for the end, whatever token (\<^verbatim>\<open>start\<close> or
  \<^verbatim>\<open>end\<close>) either of them carries. A file whose end marker comes before its start
  marker is not rejected: the lines between the two are replaced and the file is written.
\<close>

theorem markers_taken_in_file_order:
  assumes "fs fn = Some content" "run_queries psql queries [] = Inr outs"
    and "splitlines content = pre @ m1 # mid @ m2 # post" "is_marker m1" "is_marker m2"
    and "\<forall>l\<in>set pre. \<not> is_marker l" "\<forall>l\<in>set mid. \<not> is_marker l"
      "\<forall>l\<in>set post. \<not> is_marker l"
  shows "marker_indices (splitlines content) = [length pre, Suc (length pre + length mid)] \<and>
    fst (update_file psql fn queries fs) = Inr () \<and>
    (\<exists>c. snd (update_file psql fn queries fs) fn = Some c \<and>
         splitlines c = pre @ m1 # indent outs @ m2 # post)"
proof -
  have i: "marker_indices (splitlines content) = [length pre, Suc (length pre + length mid)]"
    unfolding assms(3) using assms(4-8) by (rule marker_indices_two)
  have u: "update_file psql fn queries fs =
      (Inr (), fs(fn \<mapsto> concat (map (\<lambda>l. l @ [LF]) (pre @ m1 # indent outs @ m2 # post))))"
    using assms by (rule update_file_splice)
  have l: "splitlines (concat (map (\<lambda>l. l @ [LF]) (pre @ m1 # indent outs @ m2 # post))) =
      pre @ m1 # indent outs @ m2 # post"
    using assms(2,3) by (rule spliced_content_lines)
  from i u l show ?thesis by simp
qed

theorem markers_taken_in_file_order_witness:
  "marker_indices (splitlines reversed_content) = [1, 3] \<and>
   fst (update_file echo_psql target [''NEW_A = 1''] (single_file target reversed_content)) = Inr () \<and>
   (\<exists>c. snd (update_file echo_psql target [''NEW_A = 1''] (single_file target reversed_content))
           target = Some c \<and>
        splitlines c =
          [''x = 1'', ''# autogenerated: end'', ''    NEW_A = 1'', ''# autogenerated: start'', ''y = 2''])"
proof -
  have i: "indent [''NEW_A = 1''] = [''    NEW_A = 1'']"
    by code_simp
  note t = markers_taken_in_file_order [where fs = "single_file target reversed_content"
      and fn = target and content = reversed_content and psql = echo_psql
      and queries = "[''NEW_A = 1'']" and outs = "[''NEW_A = 1'']"
      and pre = "[''x = 1'']" and ?m1.0 = "''# autogenerated: end''"
      and mid = "[''OLD_LINE = 0'']" and ?m2.0 = "''# autogenerated: start''"
      and post = "[''y = 2'']",
      OF reversed_file echo_one_line reversed_lines sample_markers(2) sample_markers(1)
        sample_markers(3) sample_markers(4) sample_markers(5)]
  then show ?thesis unfolding i by simp
qed

text \<open>
  C1 as written fails: in this file the end marker comes before the start marker, and
  the run succeeds and rewrites the file.
\<close>

theorem end_before_start_counterexample:
  "splitlines reversed_content =
     [''x = 1'', ''# autogenerated: end'', ''OLD_LINE = 0'', ''# autogenerated: start'', ''y = 2''] \<and>
   fst (update_file echo_psql target [''NEW_A = 1''] (single_file target reversed_content)) = Inr () \<and>
   snd (update_file echo_psql target [''NEW_A = 1''] (single_file target reversed_content)) target =
     Some ''x = 1\<newline># autogenerated: end\<newline>    NEW_A = 1\<newline># autogenerated: start\<newline>y = 2\<newline>''"
proof (intro conjI)
  show "splitlines reversed_content =
     [''x = 1'', ''# autogenerated: end'', ''OLD_LINE = 0'', ''# autogenerated: start'', ''y = 2'']"
    by code_simp
  show "fst (update_file echo_psql target [''NEW_A = 1''] (single_file target reversed_content)) =
      Inr ()"
    by code_simp
  show "snd (update_file echo_psql target [''NEW_A = 1''] (single_file target reversed_content)) target =
     Some ''x = 1\<newline># autogenerated: end\<newline>    NEW_A = 1\<newline># autogenerated: start\<newline>y = 2\<newline>''"
    by code_simp
qed

subsection \<open>What a run leaves alone\<close>

text \<open>
  C3, as amended: for a file with exactly two marker lines, after a successful run the lines
  of the file (as \<^verbatim>\<open>splitlines\<close> reads them, terminators aside) up to and including the
  first marker and from the second marker on are the lines that were there before; only
  the lines between the markers differ, and no other file changes. When every line of the
  original file ends with a single LF, the bytes before and after the region are unchanged
  as well.
\<close>

theorem lines_outside_markers_preserved:
  assumes "fs fn = Some content" "run_queries psql queries [] = Inr outs"
    and "splitlines content = pre @ s # mid @ e # post" "is_marker s" "is_marker e"
    and "\<forall>l\<in>set pre. \<not> is_marker l" "\<forall>l\<in>set mid. \<not> is_marker l"
      "\<forall>l\<in>set post. \<not> is_marker l"
  shows "\<exists>content'.
    snd (update_file psql fn queries fs) fn = Some content' \<and>
    splitlines content' = pre @ s # indent outs @ e # post \<and>
    take (Suc (length pre)) (splitlines content') = take (Suc (length pre)) (splitlines content) \<and>
    drop (length (splitlines content') - Suc (length post)) (splitlines content') =
      drop (length (splitlines content) - Suc (length post)) (splitlines content) \<and>
    (content = concat (map (\<lambda>l. l @ [LF]) (splitlines content)) \<longrightarrow>
       content = concat (map (\<lambda>l. l @ [LF]) (pre @ [s])) @ concat (map (\<lambda>l. l @ [LF]) mid) @
                 concat (map (\<lambda>l. l @ [LF]) (e # post)) \<and>
       content' = concat (map (\<lambda>l. l @ [LF]) (pre @ [s])) @
                  concat (map (\<lambda>l. l @ [LF]) (indent outs)) @
                  concat (map (\<lambda>l. l @ [LF]) (e # post))) \<and>
    (\<forall>p. p \<noteq> fn \<longrightarrow> snd (update_file psql fn queries fs) p = fs p)"
proof -
  let ?c' = "concat (map (\<lambda>l. l @ [LF]) (pre @ s # indent outs @ e # post))"
  have u: "update_file psql fn queries fs = (Inr (), fs(fn \<mapsto> ?c'))"
    using assms by (rule update_file_splice)
  have l: "splitlines ?c' = pre @ s # indent outs @ e # post"
    using assms(2,3) by (rule spliced_content_lines)
  have 1: "snd (update_file psql fn queries fs) fn = Some ?c'"
    by (simp add: u)
  have 3: "take (Suc (length pre)) (splitlines ?c') = take (Suc (length pre)) (splitlines content)"
    unfolding l assms(3) by simp
  have 4: "drop (length (splitlines ?c') - Suc (length post)) (splitlines ?c') =
      drop (length (splitlines content) - Suc (length post)) (splitlines content)"
    unfolding l assms(3) by simp
  have 5: "content = concat (map (\<lambda>l. l @ [LF]) (splitlines content)) \<longrightarrow>
       content = concat (map (\<lambda>l. l @ [LF]) (pre @ [s])) @ concat (map (\<lambda>l. l @ [LF]) mid) @
                 concat (map (\<lambda>l. l @ [LF]) (e # post)) \<and>
       ?c' = concat (map (\<lambda>l. l @ [LF]) (pre @ [s])) @
                  concat (map (\<lambda>l. l @ [LF]) (indent outs)) @
                  concat (map (\<lambda>l. l @ [LF]) (e # post))"
    by (simp add: assms(3))
  have 6: "\<forall>p. p \<noteq> fn \<longrightarrow> snd (update_file psql fn queries fs) p = fs p"
    by (simp add: u)
  show ?thesis
    by (rule exI[of _ ?c']) (intro conjI 1 l 3 4 5 6)
qed

theorem lines_outside_markers_preserved_witness:
  "sample_content = concat (map (\<lambda>l. l @ [LF]) (splitlines sample_content)) \<and>
   (\<exists>content'.
      snd (update_file echo_psql target [''NEW_A = 1''] (single_file target sample_content)) target =
        Some content' \<and>
      splitlines content' =
        [''x = 1'', ''# autogenerated: start'', ''    NEW_A = 1'', ''# autogenerated: end'', ''y = 2''] \<and>
      content' = ''x = 1\<newline># autogenerated: start\<newline>'' @ ''    NEW_A = 1\<newline>'' @
                 ''# autogenerated: end\<newline>y = 2\<newline>'') \<and>
   snd (update_file echo_psql target [''NEW_A = 1''] (single_file target sample_content))
     [''other.py''] = single_file target sample_content [''other.py'']"
proof -
  have h: "sample_content = concat (map (\<lambda>l. l @ [LF]) (splitlines sample_content))"
    by code_simp
  have i: "indent [''NEW_A = 1''] = [''    NEW_A = 1'']"
    by code_simp
  have n: "[''other.py''] \<noteq> target"
    by (simp add: target_def)
  note t = lines_outside_markers_preserved [where fs = "single_file target sample_content"
      and fn = target and content = sample_content and psql = echo_psql
      and queries = "[''NEW_A = 1'']" and outs = "[''NEW_A = 1'']"
      and pre = "[''x = 1'']" and s = "''# autogenerated: start''"
      and mid = "[''OLD_LINE = 0'']" and e = "''# autogenerated: end''"
      and post = "[''y = 2'']",
      OF sample_file echo_one_line sample_lines sample_markers]
  from t h n show ?thesis unfolding i by auto
qed

text \<open>
  C3 as written fails on the bytes: in this file the lines end with CRLF (one with a lone
  CR), the markers are well formed, and after the run the seven bytes in front of the
  start marker are no longer the seven bytes that were there.
\<close>

theorem crlf_outside_region_counterexample:
  "splitlines crlf_content =
     [''x = 1'', ''# autogenerated: start'', ''OLD_LINE = 0'', ''# autogenerated: end'', ''y = 2''] \<and>
   take 7 crlf_content = ''x = 1'' @ [CR, LF] \<and>
   fst (update_file echo_psql target [''NEW_A = 1''] (single_file target crlf_content)) = Inr () \<and>
   snd (update_file echo_psql target [''NEW_A = 1''] (single_file target crlf_content)) target =
     Some ''x = 1\<newline># autogenerated: start\<newline>    NEW_A = 1\<newline># autogenerated: end\<newline>y = 2\<newline>'' \<and>
   take 7 ''x = 1\<newline># autogenerated: start\<newline>    NEW_A = 1\<newline># autogenerated: end\<newline>y = 2\<newline>'' =
     ''x = 1\<newline>#''"
proof (intro conjI)
  show "splitlines crlf_content =
     [''x = 1'', ''# autogenerated: start'', ''OLD_LINE = 0'', ''# autogenerated: end'', ''y = 2'']"
    by code_simp
  show "take 7 crlf_content = ''x = 1'' @ [CR, LF]"
    by code_simp
  show "fst (update_file echo_psql target [''NEW_A = 1''] (single_file target crlf_content)) = Inr ()"
    by code_simp
  show "snd (update_file echo_psql target [''NEW_A = 1''] (single_file target crlf_content)) target =
     Some ''x = 1\<newline># autogenerated: start\<newline>    NEW_A = 1\<newline># autogenerated: end\<newline>y = 2\<newline>''"
    by code_simp
  show "take 7 ''x = 1\<newline># autogenerated: start\<newline>    NEW_A = 1\<newline># autogenerated: end\<newline>y = 2\<newline>'' =
     ''x = 1\<newline>#''"
    by code_simp
qed

subsection \<open>What counts as a marker line\<close>

text \<open>
  C10: a line is taken for a marker exactly when it starts with optional whitespace,
  \<^verbatim>\<open>#\<close>, optional whitespace, the literal \<^verbatim>\<open>autogenerated:\<close>, at least one whitespace
  character and then \<^verbatim>\<open>start\<close> or \<^verbatim>\<open>end\<close> (anything may follow). The line
  \<^verbatim>\<open># autogenerated:start\<close>, with nothing after the colon, is not a marker; a marker line
  stays one under any amount of leading whitespace.
\<close>

theorem marker_line_recognition:
  "(is_marker line \<longleftrightarrow>
     (\<exists>ws1 ws2 ws3 kw rest.
        line = ws1 @ ''#'' @ ws2 @ ''autogenerated:'' @ ws3 @ kw @ rest \<and>
        set ws1 \<subseteq> set whitespace \<and> set ws2 \<subseteq> set whitespace \<and>
        set ws3 \<subseteq> set whitespace \<and> ws3 \<noteq> [] \<and> (kw = ''start'' \<or> kw = ''end''))) \<and>
   \<not> is_marker ''# autogenerated:start'' \<and>
   (set ws \<subseteq> set whitespace \<longrightarrow>
      is_marker (ws @ ''# autogenerated: start'') \<and> is_marker (ws @ ''# autogenerated: end''))"
proof (intro conjI impI)
  show "is_marker line \<longleftrightarrow>
     (\<exists>ws1 ws2 ws3 kw rest.
        line = ws1 @ ''#'' @ ws2 @ ''autogenerated:'' @ ws3 @ kw @ rest \<and>
        set ws1 \<subseteq> set whitespace \<and> set ws2 \<subseteq> set whitespace \<and>
        set ws3 \<subseteq> set whitespace \<and> ws3 \<noteq> [] \<and> (kw = ''start'' \<or> kw = ''end''))"
    by (rule is_marker_iff)
next
  show "\<not> is_marker ''# autogenerated:start''"
    by (simp add: is_marker_def marker_re_def Plus_def whitespace_def)
next
  assume ws: "set ws \<subseteq> set whitespace"
  have sp: "set '' '' \<subseteq> set whitespace" "'' '' \<noteq> []"
    by (simp_all add: whitespace_def)
  have "\<exists>ws1 ws2 ws3 kw rest.
        ws @ ''# autogenerated: start'' = ws1 @ ''#'' @ ws2 @ ''autogenerated:'' @ ws3 @ kw @ rest \<and>
        set ws1 \<subseteq> set whitespace \<and> set ws2 \<subseteq> set whitespace \<and>
        set ws3 \<subseteq> set whitespace \<and> ws3 \<noteq> [] \<and> (kw = ''start'' \<or> kw = ''end'')"
    using ws sp
    by (intro exI[of _ ws] exI[of _ "'' ''"] exI[of _ "''start''"] exI[of _ "[]"]) simp
  then show "is_marker (ws @ ''# autogenerated: start'')"
    by (simp only: is_marker_iff)
next
  assume ws: "set ws \<subseteq> set whitespace"
  have sp: "set '' '' \<subseteq> set whitespace" "'' '' \<noteq> []"
    by (simp_all add: whitespace_def)
  have "\<exists>ws1 ws2 ws3 kw rest.
        ws @ ''# autogenerated: end'' = ws1 @ ''#'' @ ws2 @ ''autogenerated:'' @ ws3 @ kw @ rest \<and>
        set ws1 \<subseteq> set whitespace \<and> set ws2 \<subseteq> set whitespace \<and>
        set ws3 \<subseteq> set whitespace \<and> ws3 \<noteq> [] \<and> (kw = ''start'' \<or> kw = ''end'')"
    using ws sp
    by (intro exI[of _ ws] exI[of _ "'' ''"] exI[of _ "''end''"] exI[of _ "[]"]) simp
  then show "is_marker (ws @ ''# autogenerated: end'')"
    by (simp only: is_marker_iff)
qed

theorem marker_line_recognition_witness:
  "set [CHR 0x09, CHR '' ''] \<subseteq> set whitespace \<and>
   is_marker ([CHR 0x09, CHR '' ''] @ ''# autogenerated: start'') \<and>
   is_marker ([CHR 0x09, CHR '' ''] @ ''# autogenerated: end'')"
proof -
  have h: "set [CHR 0x09, CHR '' ''] \<subseteq> set whitespace"
    by (simp add: whitespace_def)
  with marker_line_recognition [of "''x''" "[CHR 0x09, CHR '' '']"] show ?thesis
    by blast
qed

end
